theory Spec2Isabelle
  imports Complex_Main "HOL-Library.Sublist"
begin

section \<open>Python strings and slices\<close>

text \<open>
  A Python \<open>str\<close> is modelled as a \<open>string\<close> whose characters stand for the code
  points below 256, so \<open>length\<close> counts characters as \<open>len\<close> does.
  \<open>isspace\<close> lists the code points below 256 for which \<open>str.isspace\<close> holds:
  tab, line feed, vertical tab, form feed, carriage return, the four separators
  \<open>0x1C\<close> to \<open>0x1F\<close>, the space, \<open>0x85\<close> and \<open>0xA0\<close>.
\<close>

definition nl :: char where
  "nl = CHR 0x0A"

definition isspace :: "char \<Rightarrow> bool" where
  "isspace c = ((of_char c :: nat) \<in> set [9, 10, 11, 12, 13, 28, 29, 30, 31, 32, 133, 160])"

text \<open>\<open>s.strip()\<close>: leading and trailing whitespace removed.\<close>

definition strip :: "string \<Rightarrow> string" where
  "strip s = rev (dropWhile isspace (rev (dropWhile isspace s)))"

text \<open>\<open>s.split("\n")\<close>: never the empty list; \<open>"".split("\n")\<close> is \<open>[""]\<close>.\<close>

fun split_newline :: "string \<Rightarrow> string list" where
  "split_newline [] = [[]]"
| "split_newline (c # cs) =
     (if c = nl then [] # split_newline cs
      else (case split_newline cs of
              [] \<Rightarrow> [[c]]
            | l # ls \<Rightarrow> (c # l) # ls))"

text \<open>\<open>xs[s:]\<close> and \<open>xs[:e]\<close> for any integer, negative ones counting from the end.\<close>

definition py_slice_from :: "int \<Rightarrow> 'a list \<Rightarrow> 'a list" where
  "py_slice_from s xs =
     (if s < 0 then drop (nat (int (length xs) + s)) xs else drop (nat s) xs)"

definition py_slice_to :: "int \<Rightarrow> 'a list \<Rightarrow> 'a list" where
  "py_slice_to e xs =
     (if e < 0 then take (nat (int (length xs) + e)) xs else take (nat e) xs)"

text \<open>\<open>sep.join(parts)\<close>.\<close>

fun join :: "string \<Rightarrow> string list \<Rightarrow> string" where
  "join sep [] = []"
| "join sep [x] = x"
| "join sep (x # y # ys) = x @ sep @ join sep (y # ys)"

section \<open>The chunker\<close>

text \<open>
  \<open>[t.strip() for t in text.split("\n") if t.strip()]\<close>: the stripped, non-empty lines.
\<close>

definition paragraphs :: "string \<Rightarrow> string list" where
  "paragraphs text = filter (\<lambda>t. t \<noteq> []) (map strip (split_newline text))"

text \<open>
  The truth value of \<open>max_chunks and len(chunks) >= max_chunks\<close> and of
  \<open>not max_chunks or len(chunks) < max_chunks\<close>: \<open>None\<close> and \<open>0\<close> are both false
  in Python.
\<close>

definition limit_reached :: "int option \<Rightarrow> nat \<Rightarrow> bool" where
  "limit_reached max_chunks n =
     (case max_chunks of None \<Rightarrow> False | Some m \<Rightarrow> m \<noteq> 0 \<and> int n \<ge> m)"

definition below_limit :: "int option \<Rightarrow> nat \<Rightarrow> bool" where
  "below_limit max_chunks n =
     (case max_chunks of None \<Rightarrow> True | Some m \<Rightarrow> m = 0 \<or> int n < m)"

text \<open>\<open>buf[-overlap:] if overlap and len(buf) > overlap else ""\<close>.\<close>

definition overlap_tail :: "int \<Rightarrow> string \<Rightarrow> string" where
  "overlap_tail overlap buf =
     (if overlap \<noteq> 0 \<and> int (length buf) > overlap then py_slice_from (- overlap) buf else [])"

text \<open>
  The \<open>for para in paras\<close> loop of \<open>chunk_text\<close> with the statement after it; the
  accumulators are \<open>chunks\<close> and \<open>buf\<close>. The early \<open>return chunks\<close> is the branch
  that does not recurse.
\<close>

fun chunk_loop ::
  "int \<Rightarrow> int \<Rightarrow> int option \<Rightarrow> string list \<Rightarrow> string list \<Rightarrow> string \<Rightarrow> string list" where
  "chunk_loop chunk_size overlap max_chunks [] chunks buf =
     (if buf \<noteq> [] \<and> below_limit max_chunks (length chunks) then chunks @ [buf] else chunks)"
| "chunk_loop chunk_size overlap max_chunks (para # paras) chunks buf =
     (if int (length buf) + int (length para) + 1 \<le> chunk_size
      then chunk_loop chunk_size overlap max_chunks paras chunks (strip (buf @ [nl] @ para))
      else if buf \<noteq> [] \<and> limit_reached max_chunks (length (chunks @ [buf]))
      then chunks @ [buf]
      else chunk_loop chunk_size overlap max_chunks paras
             (if buf \<noteq> [] then chunks @ [buf] else chunks)
             (strip (overlap_tail overlap buf @ [nl] @ para)))"

definition chunk_text :: "string \<Rightarrow> int \<Rightarrow> int \<Rightarrow> int option \<Rightarrow> string list" where
  "chunk_text text chunk_size overlap max_chunks =
     chunk_loop chunk_size overlap max_chunks (paragraphs text) [] []"


section \<open>Exceptions, JSON values and HTTP responses\<close>

text \<open>
  The exceptions the program can meet. \<open>RequestException\<close> stands for what
  \<open>requests.post\<close> itself raises (connection errors and timeouts, \<open>ReadTimeout\<close>
  among them); \<open>HTTPError\<close> is what \<open>raise_for_status\<close> raises; \<open>HTTPException\<close>
  is FastAPI's, with its status code and detail; \<open>LibraryError\<close> is anything raised by
  a PDF library or by the vector store.
\<close>

datatype exn =
    RequestException string
  | HTTPError nat
  | JSONDecodeError
  | KeyError string
  | TypeError
  | AttributeError
  | IndexError
  | ValueError string
  | HTTPException nat string
  | OSError string
  | LibraryError string

text \<open>A parsed JSON value; an object is the association list of its parsed dict.\<close>

datatype json =
    JNull
  | JBool bool
  | JNum real
  | JStr string
  | JArr "json list"
  | JObj "(string \<times> json) list"

text \<open>Python's truth value of a parsed JSON value.\<close>

fun truthy :: "json \<Rightarrow> bool" where
  "truthy JNull = False"
| "truthy (JBool b) = b"
| "truthy (JNum x) = (x \<noteq> 0)"
| "truthy (JStr s) = (s \<noteq> [])"
| "truthy (JArr xs) = (xs \<noteq> [])"
| "truthy (JObj kvs) = (kvs \<noteq> [])"

text \<open>\<open>d[key]\<close> and \<open>d.get(key, default)\<close> on a parsed value.\<close>

fun subscript :: "json \<Rightarrow> string \<Rightarrow> exn + json" where
  "subscript (JObj kvs) key =
     (case map_of kvs key of None \<Rightarrow> Inl (KeyError key) | Some v \<Rightarrow> Inr v)"
| "subscript j key = Inl TypeError"

fun dict_get :: "json \<Rightarrow> string \<Rightarrow> json \<Rightarrow> exn + json" where
  "dict_get (JObj kvs) key dflt =
     (case map_of kvs key of None \<Rightarrow> Inr dflt | Some v \<Rightarrow> Inr v)"
| "dict_get j key dflt = Inl AttributeError"

text \<open>
  What one \<open>requests.post\<close> does: it raises, or it returns a response with a status
  code and a body; \<open>body = None\<close> is a body that is not JSON.
\<close>

record response =
  status_code :: nat
  body :: "json option"

datatype post_result = Raises exn | Returns response

text \<open>\<open>r.raise_for_status()\<close> followed by \<open>r.json()\<close>.\<close>

definition checked_json :: "post_result \<Rightarrow> exn + json" where
  "checked_json pr =
     (case pr of
        Raises e \<Rightarrow> Inl e
      | Returns r \<Rightarrow>
          if 400 \<le> status_code r \<and> status_code r < 600 then Inl (HTTPError (status_code r))
          else (case body r of None \<Rightarrow> Inl JSONDecodeError | Some j \<Rightarrow> Inr j))"

section \<open>The world outside and the state of a run\<close>

text \<open>A \<open>Path\<close> with the two attributes the program reads.\<close>

record path =
  path_str :: string
  path_name :: string
  path_suffix :: string


text \<open>
  The state a run changes: how many calls each collaborator has had, what was slept,
  what was sent to the generation backend, what was written to disk, and the rows of
  the collection.
\<close>

record world =
  embed_calls :: nat
  chat_calls :: nat
  chat_prompts :: "string list"
  slept :: "nat list"
  uuid_calls :: nat
  insert_calls :: nat
  rows :: "(string \<times> json \<times> string) list"
  flush_calls :: nat
  search_calls :: nat
  written :: "(path \<times> string) list"

text \<open>
  The collaborators, as parameters: the two HTTP backends answer by call number; the
  vector store answers each insert, flush and search; the file system and the PDF
  libraries answer by path. \<open>json_error_is_request_exception\<close> says whether the
  installed \<open>requests\<close> raises a \<open>RequestException\<close> for a body that is not JSON;
  \<open>str_exn\<close> is \<open>str(e)\<close>.
\<close>

record env =
  embed_backend :: "nat \<Rightarrow> string \<Rightarrow> post_result"
  chat_backend :: "nat \<Rightarrow> string \<Rightarrow> post_result"
  json_error_is_request_exception :: bool
  str_exn :: "exn \<Rightarrow> string"
  uuid4 :: "nat \<Rightarrow> string"
  insert_result :: "nat \<Rightarrow> string list \<times> json list \<times> string list \<Rightarrow> exn option"
  flush_result :: "nat \<Rightarrow> exn option"
  search_result :: "nat \<Rightarrow> (string \<times> json \<times> string) list \<Rightarrow> json \<Rightarrow> exn + string option list list"
  read_text :: "path \<Rightarrow> exn + string"
  pdf_reader :: "path \<Rightarrow> exn + (exn + string option) list"
  fitz_open :: "path \<Rightarrow> exn + (exn + string) list"
  path_exists :: "path \<Rightarrow> bool"
  docs_glob :: "path list"
  docs_join :: "string \<Rightarrow> path"
  write_bytes :: "path \<Rightarrow> string \<Rightarrow> exn option"

text \<open>\<open>except (ReadTimeout, RequestException)\<close>: the exceptions a retry loop catches.\<close>

fun is_request_exception :: "env \<Rightarrow> exn \<Rightarrow> bool" where
  "is_request_exception env (RequestException msg) = True"
| "is_request_exception env (HTTPError code) = True"
| "is_request_exception env JSONDecodeError = json_error_is_request_exception env"
| "is_request_exception env e = False"

section \<open>Reading documents\<close>

text \<open>\<open>s.lower()\<close> on code points below 256.\<close>

definition lower_char :: "char \<Rightarrow> char" where
  "lower_char c =
     (let n = (of_char c :: nat)
      in if (65 \<le> n \<and> n \<le> 90) \<or> (192 \<le> n \<and> n \<le> 222 \<and> n \<noteq> 215)
         then char_of (n + 32) else c)"

definition lower :: "string \<Rightarrow> string" where
  "lower s = map lower_char s"

text \<open>The texts of the pages, up to the first page whose extraction raises.\<close>

fun extract_pages :: "(exn + string option) list \<Rightarrow> exn + string list" where
  "extract_pages [] = Inr []"
| "extract_pages (pg # pgs) =
     (case pg of
        Inl e \<Rightarrow> Inl e
      | Inr t \<Rightarrow>
          (case extract_pages pgs of
             Inl e \<Rightarrow> Inl e
           | Inr ts \<Rightarrow> Inr ((case t of None \<Rightarrow> [] | Some s \<Rightarrow> s) # ts)))"

fun get_texts :: "(exn + string) list \<Rightarrow> exn + string list" where
  "get_texts [] = Inr []"
| "get_texts (pg # pgs) =
     (case pg of
        Inl e \<Rightarrow> Inl e
      | Inr t \<Rightarrow> (case get_texts pgs of Inl e \<Rightarrow> Inl e | Inr ts \<Rightarrow> Inr (t # ts)))"

definition read_pdf_pypdf :: "env \<Rightarrow> path \<Rightarrow> int option \<Rightarrow> exn + string" where
  "read_pdf_pypdf env p max_pages =
     (case pdf_reader env p of
        Inl e \<Rightarrow> Inl e
      | Inr pgs \<Rightarrow>
          (case extract_pages
                  (case max_pages of
                     None \<Rightarrow> pgs
                   | Some n \<Rightarrow> if n \<noteq> 0 then py_slice_to n pgs else pgs) of
             Inl e \<Rightarrow> Inl e
           | Inr ts \<Rightarrow> Inr (join [nl] ts)))"

definition read_pdf_pymupdf :: "env \<Rightarrow> path \<Rightarrow> int option \<Rightarrow> exn + string" where
  "read_pdf_pymupdf env p max_pages =
     (case fitz_open env p of
        Inl e \<Rightarrow> Inl e
      | Inr doc \<Rightarrow>
          (let total = int (length doc);
               stop = (case max_pages of
                         None \<Rightarrow> total
                       | Some n \<Rightarrow> if n \<noteq> 0 then min total n else total)
           in case get_texts (take (nat stop) doc) of
                Inl e \<Rightarrow> Inl e
              | Inr text_parts \<Rightarrow> Inr (strip (join [nl] text_parts))))"

text \<open>
  \<open>read_pdf\<close>: both \<open>try\<close> blocks end in \<open>except Exception: pass\<close>, so the result
  is always a string. \<open>primary_text\<close> is \<open>txt\<close> after the first \<open>try\<close>: the text of
  the primary extractor, or the empty string when it raised.
\<close>

definition primary_text :: "env \<Rightarrow> path \<Rightarrow> int option \<Rightarrow> string" where
  "primary_text env p max_pages =
     (case read_pdf_pypdf env p max_pages of Inl e \<Rightarrow> [] | Inr t \<Rightarrow> t)"

definition read_pdf :: "env \<Rightarrow> path \<Rightarrow> int option \<Rightarrow> string" where
  "read_pdf env p max_pages =
     (let txt = primary_text env p max_pages
      in if txt = [] \<or> length (strip txt) < 20
         then (case read_pdf_pymupdf env p max_pages of
                 Inl e \<Rightarrow> txt
               | Inr txt2 \<Rightarrow>
                   if txt2 \<noteq> [] \<and> length (strip txt2) > length (strip txt) then txt2 else txt)
         else txt)"

definition read_txt :: "env \<Rightarrow> path \<Rightarrow> exn + string" where
  "read_txt env p = read_text env p"

definition load_document :: "env \<Rightarrow> path \<Rightarrow> int option \<Rightarrow> exn + string" where
  "load_document env p max_pages =
     (let ext = lower (path_suffix p)
      in if ext \<in> set [''.txt'', ''.md''] then read_txt env p
         else if ext = ''.pdf'' then Inr (read_pdf env p max_pages)
         else Inl (ValueError (''Tipo de archivo no soportado: '' @ ext)))"

section \<open>The embedding client\<close>

text \<open>
  The body of the \<open>try\<close> in \<open>embed_texts\<close>, at the \<open>k\<close>-th call of the backend: the
  post, \<open>raise_for_status\<close>, \<open>r.json()["embedding"]\<close>.
\<close>

definition embedding_attempt :: "env \<Rightarrow> nat \<Rightarrow> string \<Rightarrow> exn + json" where
  "embedding_attempt env k t =
     (case checked_json (embed_backend env k t) of
        Inl e \<Rightarrow> Inl e
      | Inr j \<Rightarrow> subscript j ''embedding'')"

text \<open>The \<open>while True\<close> loop for one text; \<open>attempts\<close> counts the caught failures.\<close>

function embed_retry :: "env \<Rightarrow> string \<Rightarrow> nat \<Rightarrow> world \<Rightarrow> (exn + json) \<times> world" where
  "embed_retry env t attempts w =
     (case embedding_attempt env (embed_calls w) t of
        Inr v \<Rightarrow> (Inr v, w\<lparr>embed_calls := Suc (embed_calls w)\<rparr>)
      | Inl e \<Rightarrow>
          if is_request_exception env e then
            if Suc attempts \<ge> 3
            then (Inl (HTTPException 503 (''Embeddings error: '' @ str_exn env e)),
                  w\<lparr>embed_calls := Suc (embed_calls w)\<rparr>)
            else embed_retry env t (Suc attempts)
                   (w\<lparr>embed_calls := Suc (embed_calls w),
                      slept := slept w @ [2 * Suc attempts]\<rparr>)
          else (Inl e, w\<lparr>embed_calls := Suc (embed_calls w)\<rparr>))"
  by pat_completeness auto
termination
  by (relation "measure (\<lambda>(env, t, attempts, w). 3 - attempts)") auto

declare embed_retry.simps [simp del]

text \<open>The \<open>for t in texts\<close> loop; \<open>out\<close> is the list built so far.\<close>

fun embed_loop :: "env \<Rightarrow> string list \<Rightarrow> json list \<Rightarrow> world \<Rightarrow> (exn + json list) \<times> world" where
  "embed_loop env [] out w = (Inr out, w)"
| "embed_loop env (t # ts) out w =
     (case embed_retry env t 0 w of
        (Inl e, w1) \<Rightarrow> (Inl e, w1)
      | (Inr v, w1) \<Rightarrow> embed_loop env ts (out @ [v]) w1)"

definition embed_texts :: "env \<Rightarrow> string list \<Rightarrow> world \<Rightarrow> (exn + json list) \<times> world" where
  "embed_texts env texts w = embed_loop env texts [] w"


section \<open>The vector store\<close>

text \<open>
  \<open>[str(uuid.uuid4())[:8] for _ in parts]\<close>, \<open>collection.insert\<close>,
  \<open>collection.flush\<close> and \<open>collection.search\<close>. An insert that succeeds appends its
  rows; every call is counted, also one that raises.
\<close>

definition new_ids :: "env \<Rightarrow> nat \<Rightarrow> world \<Rightarrow> string list \<times> world" where
  "new_ids env n w =
     (map (\<lambda>i. take 8 (uuid4 env (uuid_calls w + i))) [0..<n],
      w\<lparr>uuid_calls := uuid_calls w + n\<rparr>)"

definition insert_entities ::
  "env \<Rightarrow> string list \<times> json list \<times> string list \<Rightarrow> world \<Rightarrow> exn option \<times> world" where
  "insert_entities env entities w =
     (case insert_result env (insert_calls w) entities of
        Some e \<Rightarrow> (Some e, w\<lparr>insert_calls := Suc (insert_calls w)\<rparr>)
      | None \<Rightarrow>
          (case entities of (ids, vectors, parts) \<Rightarrow>
             (None, w\<lparr>insert_calls := Suc (insert_calls w),
                      rows := rows w @ zip ids (zip vectors parts)\<rparr>)))"

definition flush :: "env \<Rightarrow> world \<Rightarrow> exn option \<times> world" where
  "flush env w = (flush_result env (flush_calls w), w\<lparr>flush_calls := Suc (flush_calls w)\<rparr>)"

definition search :: "env \<Rightarrow> json \<Rightarrow> world \<Rightarrow> (exn + string option list list) \<times> world" where
  "search env qvec w =
     (search_result env (search_calls w) (rows w) qvec, w\<lparr>search_calls := Suc (search_calls w)\<rparr>)"

section \<open>Ingestion\<close>

record IngestReport =
  inserted :: int
  files :: "string list"









text \<open>
  \<open>ingest_one\<close>: \<open>ingest_error\<close> is the \<open>except\<close> clause that turns any exception
  into a 500.
\<close>

definition ingest_error :: "env \<Rightarrow> path \<Rightarrow> exn \<Rightarrow> exn" where
  "ingest_error env p e =
     HTTPException 500 (''Ingest error '' @ path_name p @ '': '' @ str_exn env e)"

definition ingest_one ::
  "env \<Rightarrow> string \<Rightarrow> int option \<Rightarrow> int option \<Rightarrow> world \<Rightarrow> (exn + IngestReport) \<times> world" where
  "ingest_one env fname max_pages max_chunks w =
     (let p = docs_join env fname
      in if \<not> path_exists env p
         then (Inl (HTTPException 404 (''No existe: '' @ path_name p)), w)
         else (case load_document env p
                      (if lower (path_suffix p) = ''.pdf'' then max_pages else None) of
                 Inl e \<Rightarrow> (Inl (ingest_error env p e), w)
               | Inr raw \<Rightarrow>
                   (let parts = chunk_text raw 1200 200 max_chunks
                    in if parts = []
                       then (Inr \<lparr>inserted = 0, files = [path_name p @ '' (sin texto)'']\<rparr>, w)
                       else (case embed_texts env parts w of
                               (Inl e, w1) \<Rightarrow> (Inl (ingest_error env p e), w1)
                             | (Inr vectors, w1) \<Rightarrow>
                                 (case new_ids env (length parts) w1 of (ids, w2) \<Rightarrow>
                                    (case insert_entities env (ids, vectors, parts) w2 of
                                       (Some e, w3) \<Rightarrow> (Inl (ingest_error env p e), w3)
                                     | (None, w3) \<Rightarrow>
                                         (case flush env w3 of
                                            (Some e, w4) \<Rightarrow> (Inl (ingest_error env p e), w4)
                                          | (None, w4) \<Rightarrow>
                                              (Inr \<lparr>inserted = int (length ids),
                                                    files = [path_name p]\<rparr>, w4))))))))"

section \<open>Chat\<close>

text \<open>
  The context and the number of documents used: \<open>hits\<close> is the search result, a list
  with one list of hits for each query vector, and a hit is here the value of
  \<open>h.entity.get("text")\<close>. Joining a value that is not a string raises \<open>TypeError\<close>.
\<close>

fun hit_texts :: "string option list \<Rightarrow> string list option" where
  "hit_texts [] = Some []"
| "hit_texts (h # hs) =
     (case h of
        None \<Rightarrow> None
      | Some t \<Rightarrow> (case hit_texts hs of None \<Rightarrow> None | Some ts \<Rightarrow> Some (t # ts)))"

definition build_context :: "string option list list \<Rightarrow> exn + string \<times> nat" where
  "build_context hits =
     (case hits of
        [] \<Rightarrow> Inr ([], 0)
      | h0 # rest \<Rightarrow>
          if length h0 > 0
          then (case hit_texts h0 of
                  None \<Rightarrow> Inl TypeError
                | Some ts \<Rightarrow> Inr (join [nl, nl] ts, length h0))
          else Inr ([], 0))"

definition build_prompt :: "string \<Rightarrow> string \<Rightarrow> string" where
  "build_prompt ctx question =
     ''Usa estrictamente el contexto para responder. '' @
     ''Si el contexto no contiene la respuesta, indica claramente que no est'' @ [CHR 0xE1] @
     '' en los documentos.'' @ [nl, nl] @
     ''[Contexto]'' @ [nl] @ ctx @ [nl, nl] @ ''[Pregunta]'' @ [nl] @ question @ [nl, nl] @
     ''Respuesta:''"

record ChatAnswer =
  answer :: json
  used_docs :: nat

text \<open>
  \<open>(data.get("message", {}) or {}).get("content") or data.get("response", "")\<close>:
  the answer is \<open>message.content\<close>, or \<open>response\<close> when that is missing or empty.
\<close>

definition extract_answer :: "json \<Rightarrow> exn + json" where
  "extract_answer data =
     (case dict_get data ''message'' (JObj []) of
        Inl e \<Rightarrow> Inl e
      | Inr m \<Rightarrow>
          (case dict_get (if truthy m then m else JObj []) ''content'' JNull of
             Inl e \<Rightarrow> Inl e
           | Inr content \<Rightarrow>
               if truthy content then Inr content else dict_get data ''response'' (JStr [])))"

text \<open>
  The body of the \<open>try\<close> in \<open>chat\<close> at the \<open>k\<close>-th call of the generation backend,
  up to the \<open>return\<close>; no answer raises the 503 \<open>no_content\<close> from inside the \<open>try\<close>.
\<close>

definition no_content :: exn where
  "no_content = HTTPException 503 (''Ollama no devolvi'' @ [CHR 0xF3] @ '' contenido.'')"

definition chat_attempt :: "env \<Rightarrow> nat \<Rightarrow> string \<Rightarrow> exn + json" where
  "chat_attempt env k prompt =
     (case checked_json (chat_backend env k prompt) of
        Inl e \<Rightarrow> Inl e
      | Inr data \<Rightarrow>
          (case extract_answer data of
             Inl e \<Rightarrow> Inl e
           | Inr ans \<Rightarrow> if \<not> truthy ans then Inl no_content else Inr ans))"

text \<open>The \<open>while True\<close> loop of \<open>chat\<close>.\<close>

function generate ::
  "env \<Rightarrow> string \<Rightarrow> nat \<Rightarrow> nat \<Rightarrow> world \<Rightarrow> (exn + ChatAnswer) \<times> world" where
  "generate env prompt used attempts w =
     (case chat_attempt env (chat_calls w) prompt of
        Inr ans \<Rightarrow>
          (Inr \<lparr>answer = ans, used_docs = used\<rparr>,
           w\<lparr>chat_calls := Suc (chat_calls w), chat_prompts := chat_prompts w @ [prompt]\<rparr>)
      | Inl e \<Rightarrow>
          if is_request_exception env e then
            if Suc attempts \<ge> 2
            then (Inl (HTTPException 503 (''Ollama chat error: '' @ str_exn env e)),
                  w\<lparr>chat_calls := Suc (chat_calls w), chat_prompts := chat_prompts w @ [prompt]\<rparr>)
            else generate env prompt used (Suc attempts)
                   (w\<lparr>chat_calls := Suc (chat_calls w),
                      chat_prompts := chat_prompts w @ [prompt],
                      slept := slept w @ [4 * Suc attempts]\<rparr>)
          else (Inl e,
                w\<lparr>chat_calls := Suc (chat_calls w), chat_prompts := chat_prompts w @ [prompt]\<rparr>))"
  by pat_completeness auto
termination
  by (relation "measure (\<lambda>(env, prompt, used, attempts, w). 2 - attempts)") auto

declare generate.simps [simp del]

definition chat :: "env \<Rightarrow> string \<Rightarrow> world \<Rightarrow> (exn + ChatAnswer) \<times> world" where
  "chat env question w =
     (case embed_texts env [question] w of
        (Inl e, w1) \<Rightarrow> (Inl e, w1)
      | (Inr vs, w1) \<Rightarrow>
          (case vs of
             [] \<Rightarrow> (Inl IndexError, w1)
           | qvec # rest \<Rightarrow>
               (case search env qvec w1 of
                  (Inl e, w2) \<Rightarrow> (Inl e, w2)
                | (Inr hits, w2) \<Rightarrow>
                    (case build_context hits of
                       Inl e \<Rightarrow> (Inl e, w2)
                     | Inr (ctx, used) \<Rightarrow> generate env (build_prompt ctx question) used 0 w2))))"


section \<open>Example collaborators\<close>

text \<open>
  A world in which nothing has happened yet, and collaborators that always succeed:
  the embedding backend answers every text with the same vector, the generation
  backend with the same message, the store accepts everything and finds nothing, every
  text file is empty and no file is a PDF. The examples below change one collaborator
  at a time.
\<close>

definition world0 :: world where
  "world0 =
     \<lparr>embed_calls = 0, chat_calls = 0, chat_prompts = [], slept = [], uuid_calls = 0,
      insert_calls = 0, rows = [], flush_calls = 0, search_calls = 0, written = []\<rparr>"

fun exn_text :: "exn \<Rightarrow> string" where
  "exn_text (RequestException msg) = msg"
| "exn_text (HTTPError code) = ''HTTP error''"
| "exn_text JSONDecodeError = ''not JSON''"
| "exn_text (KeyError k) = k"
| "exn_text TypeError = ''type error''"
| "exn_text AttributeError = ''attribute error''"
| "exn_text IndexError = ''index error''"
| "exn_text (ValueError msg) = msg"
| "exn_text (HTTPException code detail) = detail"
| "exn_text (OSError msg) = msg"
| "exn_text (LibraryError msg) = msg"

definition ok_embedding :: post_result where
  "ok_embedding =
     Returns \<lparr>status_code = 200, body = Some (JObj [(''embedding'', JArr [JNum 1, JNum 0])])\<rparr>"

definition ok_message :: post_result where
  "ok_message =
     Returns \<lparr>status_code = 200,
              body = Some (JObj [(''message'', JObj [(''content'', JStr ''Paris'')])])\<rparr>"

definition file_path :: "string \<Rightarrow> string \<Rightarrow> path" where
  "file_path stem ext =
     \<lparr>path_str = ''/app/data/docs/'' @ stem @ ext, path_name = stem @ ext, path_suffix = ext\<rparr>"

definition example_env :: env where
  "example_env =
     \<lparr>embed_backend = (\<lambda>k t. ok_embedding),
      chat_backend = (\<lambda>k prompt. ok_message),
      json_error_is_request_exception = True,
      str_exn = exn_text,
      uuid4 = (\<lambda>k. ''6f1c2a9e-0000-4000-8000-000000000000''),
      insert_result = (\<lambda>k entities. None),
      flush_result = (\<lambda>k. None),
      search_result = (\<lambda>k stored qvec. Inr [[]]),
      read_text = (\<lambda>p. Inr []),
      pdf_reader = (\<lambda>p. Inl (LibraryError ''not a PDF'')),
      fitz_open = (\<lambda>p. Inl (LibraryError ''not a PDF'')),
      path_exists = (\<lambda>p. True),
      docs_glob = [],
      docs_join = (\<lambda>n. file_path (takeWhile (\<lambda>c. c \<noteq> CHR ''.'') n)
                                    (dropWhile (\<lambda>c. c \<noteq> CHR ''.'') n)),
      write_bytes = (\<lambda>p content. None)\<rparr>"

text \<open>A scanned PDF: the primary extractor finds a page number only, the secondary one a
  sentence of 50 characters.\<close>

definition scanned_env :: env where
  "scanned_env =
     example_env\<lparr>pdf_reader := (\<lambda>p. Inr [Inr (Some ''Page 1''), Inr None]),
                  fitz_open := (\<lambda>p. Inr [Inr ''The quick brown fox jumps over the lazy dog again.''])\<rparr>"

text \<open>Text files that hold whitespace only.\<close>

definition blank_env :: env where
  "blank_env = example_env\<lparr>read_text := (\<lambda>p. Inr (''  '' @ [nl] @ '' ''))\<rparr>"

text \<open>An embedding backend that times out twice and then answers.\<close>

definition flaky_env :: env where
  "flaky_env =
     example_env\<lparr>embed_backend :=
       (\<lambda>k t. if k < 2 then Raises (RequestException ''timed out'') else ok_embedding)\<rparr>"

text \<open>Backends that always time out.\<close>

definition down_env :: env where
  "down_env =
     example_env\<lparr>embed_backend := (\<lambda>k t. Raises (RequestException ''timed out'')),
                  chat_backend := (\<lambda>k prompt. Raises (RequestException ''timed out''))\<rparr>"








section \<open>Predicates used in the properties\<close>

text \<open>A string that \<open>strip\<close> leaves as it is: empty, or with no whitespace at either end.\<close>

definition stripped :: "string \<Rightarrow> bool" where
  "stripped s = (s = [] \<or> (\<not> isspace (hd s) \<and> \<not> isspace (last s)))"


text \<open>\<open>c'\<close> begins with the buffer seeded from the chunk \<open>c\<close> and one paragraph.\<close>

definition carries_overlap :: "int \<Rightarrow> string list \<Rightarrow> string \<Rightarrow> string \<Rightarrow> bool" where
  "carries_overlap overlap paras c c' =
     (\<exists>p\<in>set paras. prefix (strip (overlap_tail overlap c @ [nl] @ p)) c')"

text \<open>The invariant of the loop of \<open>chunk_text\<close> for consecutive chunks.\<close>

definition chained :: "int \<Rightarrow> string list \<Rightarrow> string list \<Rightarrow> string \<Rightarrow> bool" where
  "chained ov P chunks buf =
     (successively (carries_overlap ov P) (chunks @ [buf]) \<and>
      (\<forall>c\<in>set chunks. c \<noteq> [] \<and> stripped c) \<and> stripped buf \<and> (chunks \<noteq> [] \<longrightarrow> buf \<noteq> []))"









section \<open>Properties of the chunker\<close>

subsection \<open>Stripping\<close>


lemma stripped_strip: "stripped (strip s)"
proof (cases "strip s = []")
  case True
  then show ?thesis by (simp add: stripped_def)
next
  case False
  let ?d = "dropWhile isspace s"
  let ?r = "dropWhile isspace (rev ?d)"
  from False have r: "?r \<noteq> []" by (simp add: strip_def)
  have d: "?d \<noteq> []"
  proof
    assume "?d = []"
    then have "?r = []" by (simp only: rev.simps(1) dropWhile.simps(1))
    with r show False by (simp only: not_False_eq_True)
  qed
  have l: "\<not> isspace (last (strip s))"
    using hd_dropWhile [OF r] r by (simp add: strip_def last_rev)
  obtain y ys where y: "?r = y # ys" using r by (cases ?r) auto
  define t where "t = rev (takeWhile isspace (rev ?d))"
  have "rev ?d = takeWhile isspace (rev ?d) @ ?r" by simp
  then have "rev (rev ?d) = rev (takeWhile isspace (rev ?d) @ y # ys)" using y by simp
  then have dd: "?d = rev ys @ y # t" by (simp add: t_def)
  have ss: "strip s = rev ys @ [y]" using y by (simp add: strip_def)
  have "hd (rev ys @ y # t) = hd (rev ys @ [y])" by (simp add: hd_append)
  with dd ss have "hd (strip s) = hd ?d" by simp
  then have "\<not> isspace (hd (strip s))" using hd_dropWhile [OF d] by simp
  with l show ?thesis by (simp add: stripped_def)
qed

lemma strip_stripped: "stripped s \<Longrightarrow> strip s = s"
proof (cases "s = []")
  case True then show ?thesis by (simp add: strip_def)
next
  case False
  assume "stripped s"
  with False have h: "\<not> isspace (hd s)" and l: "\<not> isspace (last s)" by (auto simp: stripped_def)
  from False h have "dropWhile isspace s = s" by (simp add: dropWhile_eq_self_iff)
  moreover from False l have "dropWhile isspace (rev s) = rev s"
    by (simp add: dropWhile_eq_self_iff hd_rev)
  ultimately show ?thesis by (simp add: strip_def)
qed

lemma strip_strip: "strip (strip s) = strip s"
  by (rule strip_stripped [OF stripped_strip])

lemma strip_append_stripped:
  assumes "p \<noteq> []" and "stripped p"
  shows "strip (x @ p) = dropWhile isspace x @ p"
proof -
  from assms have h: "\<not> isspace (hd p)" and l: "\<not> isspace (last p)" by (auto simp: stripped_def)
  from assms(1) h have "dropWhile isspace p = p" by (simp add: dropWhile_eq_self_iff)
  then have d: "dropWhile isspace (x @ p) = dropWhile isspace x @ p"
    by (simp add: dropWhile_append)
  from assms(1) l have "dropWhile isspace (rev p @ rev (dropWhile isspace x)) = rev p @ rev (dropWhile isspace x)"
    by (simp add: dropWhile_eq_self_iff hd_append hd_rev)
  with d show ?thesis by (simp add: strip_def)
qed

lemma paragraphs_stripped: "p \<in> set (paragraphs t) \<Longrightarrow> p \<noteq> [] \<and> stripped p"
  by (auto simp: paragraphs_def stripped_strip)

subsection \<open>The ceiling \<open>max_chunks\<close>\<close>

lemma chunk_loop_None_append:
  "chunk_loop cs ov None ps chunks buf = chunks @ chunk_loop cs ov None ps [] buf"
proof (induction ps arbitrary: chunks buf)
  case Nil
  then show ?case by (simp add: below_limit_def)
next
  case (Cons p ps)
  show ?case
    using Cons.IH [of chunks] Cons.IH [of "chunks @ [buf]"] Cons.IH [of "[buf]"]
    by (simp add: limit_reached_def)
qed

lemma chunk_loop_limit:
  "0 < n \<Longrightarrow> int (length chunks) < n \<Longrightarrow>
   chunk_loop cs ov (Some n) ps chunks buf = take (nat n) (chunk_loop cs ov None ps chunks buf)"
proof (induction ps arbitrary: chunks buf)
  case Nil
  then show ?case by (auto simp: below_limit_def)
next
  case (Cons p ps)
  show ?case
  proof (cases "int (length buf) + int (length p) + 1 \<le> cs")
    case True
    then show ?thesis using Cons by simp
  next
    case False
    show ?thesis
    proof (cases "buf = []")
      case True
      then show ?thesis using False Cons by (simp add: limit_reached_def)
    next
      case nonempty: False
      show ?thesis
      proof (cases "int (length chunks) + 1 < n")
        case True
        then show ?thesis using False nonempty Cons.IH [of "chunks @ [buf]"] Cons.prems
          by (simp add: limit_reached_def)
      next
        case full: False
        with Cons.prems have len: "length (chunks @ [buf]) = nat n" by simp
        have "chunk_loop cs ov None (p # ps) chunks buf =
                (chunks @ [buf]) @ chunk_loop cs ov None ps [] (strip (overlap_tail ov buf @ [nl] @ p))"
          using False nonempty chunk_loop_None_append [of cs ov ps "chunks @ [buf]"]
          by (simp add: limit_reached_def)
        then have "take (nat n) (chunk_loop cs ov None (p # ps) chunks buf) = chunks @ [buf]"
          using len by (metis append_eq_conv_conj)
        moreover have "chunk_loop cs ov (Some n) (p # ps) chunks buf = chunks @ [buf]"
          using False nonempty full Cons.prems by (simp add: limit_reached_def)
        ultimately show ?thesis by simp
      qed
    qed
  qed
qed

lemma chunk_text_limit:
  "0 < n \<Longrightarrow> chunk_text t cs ov (Some n) = take (nat n) (chunk_text t cs ov None)"
  unfolding chunk_text_def by (rule chunk_loop_limit) simp_all

lemma chunk_loop_zero:
  "chunk_loop cs ov (Some 0) ps chunks buf = chunk_loop cs ov None ps chunks buf"
  by (induction ps arbitrary: chunks buf) (simp_all add: limit_reached_def below_limit_def)

lemma chunk_text_zero: "chunk_text t cs ov (Some 0) = chunk_text t cs ov None"
  by (simp add: chunk_text_def chunk_loop_zero)

subsection \<open>Chunk lengths and overlap\<close>






lemma carries_overlap_prefix:
  "carries_overlap ov P c b \<Longrightarrow> prefix b b' \<Longrightarrow> carries_overlap ov P c b'"
  unfolding carries_overlap_def by (meson prefix_order.trans)

lemma successively_snoc_replace:
  assumes "successively R (xs @ [b])" and "\<And>c. R c b \<Longrightarrow> R c b'"
  shows "successively R (xs @ [b'])"
  using assms by (auto simp: successively_append_iff)

lemma pack_stripped:
  assumes "buf \<noteq> []" and "stripped buf" and "p \<noteq> []" and "stripped p"
  shows "strip (buf @ [nl] @ p) = buf @ [nl] @ p"
proof -
  from assms(1,2) have "\<not> isspace (hd buf)" by (simp add: stripped_def)
  with assms(1) have "dropWhile isspace (buf @ [nl]) = buf @ [nl]"
    by (simp add: dropWhile_eq_self_iff)
  with strip_append_stripped [OF assms(3,4), of "buf @ [nl]"] show ?thesis by simp
qed

lemma isspace_nl: "isspace nl"
  by (simp add: isspace_def nl_def)

lemma pack_empty:
  assumes "p \<noteq> []" and "stripped p"
  shows "strip ([] @ [nl] @ p) = p"
  using strip_append_stripped [OF assms, of "[nl]"] isspace_nl by simp

lemma chunk_loop_chained:
  "(\<forall>p\<in>set ps. p \<in> set P \<and> p \<noteq> [] \<and> stripped p) \<Longrightarrow> chained ov P chunks buf \<Longrightarrow>
   successively (carries_overlap ov P) (chunk_loop cs ov mc ps chunks buf) \<and>
   (\<forall>c\<in>set (chunk_loop cs ov mc ps chunks buf). c \<noteq> [] \<and> stripped c)"
proof (induction ps arbitrary: chunks buf)
  case Nil
  then show ?case by (auto simp: chained_def successively_append_iff)
next
  case (Cons p ps)
  from Cons.prems(1) have p: "p \<in> set P" "p \<noteq> []" "stripped p"
    and ps: "\<forall>p\<in>set ps. p \<in> set P \<and> p \<noteq> [] \<and> stripped p" by auto
  from Cons.prems(2) have succ: "successively (carries_overlap ov P) (chunks @ [buf])"
    and cks: "\<forall>c\<in>set chunks. c \<noteq> [] \<and> stripped c"
    and sb: "stripped buf" and ne: "chunks \<noteq> [] \<longrightarrow> buf \<noteq> []"
    by (simp_all add: chained_def)
  from succ have succ0: "successively (carries_overlap ov P) chunks"
    by (simp add: successively_append_iff)
  have sseed: "stripped (strip (overlap_tail ov buf @ [nl] @ p))" by (rule stripped_strip)
  let ?seed = "strip (overlap_tail ov buf @ [nl] @ p)"
  have seed_ne: "?seed \<noteq> []"
    using strip_append_stripped [OF p(2,3), of "overlap_tail ov buf @ [nl]"] p(2) by simp
  show ?case
  proof (cases "int (length buf) + int (length p) + 1 \<le> cs")
    case True
    have "chained ov P chunks (strip (buf @ [nl] @ p))"
    proof (cases "buf = []")
      case True
      with ne have "chunks = []" by auto
      with True show ?thesis
        using pack_empty [OF p(2,3)] p by (simp add: chained_def)
    next
      case False
      have eq: "strip (buf @ [nl] @ p) = buf @ [nl] @ p"
        by (rule pack_stripped [OF False sb p(2,3)])
      have "successively (carries_overlap ov P) (chunks @ [buf @ [nl] @ p])"
        by (rule successively_snoc_replace [OF succ])
           (erule carries_overlap_prefix, simp)
      moreover have "stripped (buf @ [nl] @ p)"
        using stripped_strip [of "buf @ [nl] @ p"] unfolding eq .
      ultimately show ?thesis
        unfolding eq chained_def using cks by simp
    qed
    from Cons.IH [OF ps this] True show ?thesis by simp
  next
    case False
    show ?thesis
    proof (cases "buf = []")
      case True
      with ne have "chunks = []" by auto
      then have "chained ov P chunks ?seed"
        using sseed by (simp add: chained_def)
      from Cons.IH [OF ps this] False True show ?thesis by simp
    next
      case nonempty: False
      show ?thesis
      proof (cases "limit_reached mc (length (chunks @ [buf]))")
        case True
        then show ?thesis using False nonempty succ cks sb by simp
      next
        case no_limit: False
        have "carries_overlap ov P buf ?seed"
          unfolding carries_overlap_def using p(1) by (intro bexI [of _ p]) auto
        then have "successively (carries_overlap ov P) ((chunks @ [buf]) @ [?seed])"
          using succ successively_append_iff [of "carries_overlap ov P" "chunks @ [buf]" "[?seed]"]
          by simp
        then have "chained ov P (chunks @ [buf]) ?seed"
          unfolding chained_def using cks sb nonempty seed_ne sseed by simp
        from Cons.IH [OF ps this] False nonempty no_limit show ?thesis by simp
      qed
    qed
  qed
qed

lemma tail_seed:
  assumes "0 < ov" and "ov < int (length c)" and "stripped c" and "p \<noteq> []" and "stripped p"
  shows "strip (overlap_tail ov c @ [nl] @ p) =
         dropWhile isspace (py_slice_from (- ov) c) @ [nl] @ p"
proof -
  let ?t = "py_slice_from (- ov) c"
  from assms(1,2) have c: "c \<noteq> []" by auto
  with assms(3) have l: "\<not> isspace (last c)" by (simp add: stripped_def)
  from assms(1,2) have t: "?t = drop (nat (int (length c) - ov)) c"
    by (simp add: py_slice_from_def)
  from assms(1,2) have "nat (int (length c) - ov) < length c" by linarith
  then have "?t \<noteq> []" and "last ?t = last c" unfolding t by simp_all
  with l have "last ?t \<in> set ?t" and "\<not> isspace (last ?t)"
    using last_in_set [of ?t] by simp_all
  then have "dropWhile isspace (?t @ [nl]) = dropWhile isspace ?t @ [nl]"
    by (rule dropWhile_append1)
  moreover have "overlap_tail ov c = ?t" using assms(1,2) by (simp add: overlap_tail_def)
  ultimately show ?thesis
    using strip_append_stripped [OF assms(4,5), of "?t @ [nl]"] by simp
qed

lemma chunk_text_overlap:
  assumes "Suc i < length (chunk_text t cs ov mc)" and "0 < ov"
    and "ov < int (length (chunk_text t cs ov mc ! i))"
  shows "\<exists>p\<in>set (paragraphs t).
           prefix (dropWhile isspace (py_slice_from (- ov) (chunk_text t cs ov mc ! i)) @ [nl] @ p)
             (chunk_text t cs ov mc ! Suc i)"
proof -
  let ?r = "chunk_text t cs ov mc"
  have "chained ov (paragraphs t) [] []" by (simp add: chained_def stripped_def)
  then have r: "successively (carries_overlap ov (paragraphs t)) ?r"
    and s: "\<forall>c\<in>set ?r. c \<noteq> [] \<and> stripped c"
    using chunk_loop_chained [of "paragraphs t" "paragraphs t" ov "[]" "[]" cs mc]
    by (auto simp: chunk_text_def paragraphs_stripped)
  from successively_nth [OF r assms(1)]
  obtain p where p: "p \<in> set (paragraphs t)"
    and pre: "prefix (strip (overlap_tail ov (?r ! i) @ [nl] @ p)) (?r ! Suc i)"
    by (auto simp: carries_overlap_def)
  from assms(1) s have "stripped (?r ! i)" by simp
  from tail_seed [OF assms(2,3) this] paragraphs_stripped [OF p] pre p show ?thesis
    by auto
qed

subsection \<open>Worked examples\<close>

lemma chunks_two_short:
  "chunk_text (''aa'' @ [nl] @ ''bb'') 3 0 None = [''aa'', ''bb'']"
  "chunk_text (''aa'' @ [nl] @ ''bb'') 3 0 (Some 0) = [''aa'', ''bb'']"
  "chunk_text (''aa'' @ [nl] @ ''bb'') 3 0 (Some (- 1)) = [''aa'']"
  by code_simp+


lemma chunks_spaced:
  "chunk_text (''ab cd'' @ [nl] @ ''efgh'') 6 3 None = [''ab cd'', ''cd'' @ [nl] @ ''efgh'']"
  "paragraphs (''ab cd'' @ [nl] @ ''efgh'') = [''ab cd'', ''efgh'']"
  by code_simp+

subsection \<open>The claims about the chunker\<close>

text \<open>
  C2, as the code has it: a ceiling \<open>max_chunks = n\<close> with \<open>n\<close> at least 1 cuts the
  chunks to the first \<open>n\<close> of those produced without a ceiling. So there are never
  more than \<open>n\<close>, and exactly \<open>n\<close> whenever the text has at least that many. A
  ceiling of 0 is no ceiling.
\<close>

theorem chunk_text_max_chunks:
  "(0 < n \<longrightarrow>
      chunk_text text chunk_size overlap (Some n) =
        take (nat n) (chunk_text text chunk_size overlap None) \<and>
      int (length (chunk_text text chunk_size overlap (Some n))) \<le> n \<and>
      (n \<le> int (length (chunk_text text chunk_size overlap None)) \<longrightarrow>
         int (length (chunk_text text chunk_size overlap (Some n))) = n)) \<and>
   chunk_text text chunk_size overlap (Some 0) = chunk_text text chunk_size overlap None"
  using chunk_text_limit [of n "text" chunk_size overlap]
    chunk_text_zero [of "text" chunk_size overlap]
  by auto

text \<open>
  C2 at work: two paragraphs that do not fit together and a ceiling of 1 give the
  first chunk alone.
\<close>

theorem chunk_text_max_chunks_witness:
  "(0::int) < 1 \<and> 1 \<le> int (length (chunk_text (''aa'' @ [nl] @ ''bb'') 3 0 None)) \<and>
   chunk_text (''aa'' @ [nl] @ ''bb'') 3 0 (Some 1) = [''aa'']"
  using chunk_text_max_chunks [of 1 "''aa'' @ [nl] @ ''bb''" 3 0]
  unfolding chunks_two_short by simp

text \<open>
  C2 as stated fails for a ceiling that is not positive: \<open>max_chunks = 0\<close> is false
  in both tests of the code and so is no ceiling at all (two chunks come back), and
  \<open>max_chunks = -1\<close> stops after the first chunk, which is more than \<open>-1\<close>.
\<close>

theorem chunk_text_max_chunks_counterexample:
  "\<not> int (length (chunk_text (''aa'' @ [nl] @ ''bb'') 3 0 (Some 0))) \<le> 0 \<and>
   \<not> int (length (chunk_text (''aa'' @ [nl] @ ''bb'') 3 0 (Some (- 1)))) \<le> - 1"
  unfolding chunks_two_short by simp




text \<open>
  C4, as the code has it: when a chunk is longer than a positive \<open>overlap\<close>, the
  next chunk begins with the last \<open>overlap\<close> characters of it without their leading
  whitespace, then a newline, then the paragraph that did not fit.
\<close>

theorem chunk_text_overlap_carried:
  "Suc i < length (chunk_text text chunk_size overlap max_chunks) \<Longrightarrow> 0 < overlap \<Longrightarrow>
   overlap < int (length (chunk_text text chunk_size overlap max_chunks ! i)) \<Longrightarrow>
   \<exists>p\<in>set (paragraphs text).
      prefix (dropWhile isspace
                (py_slice_from (- overlap) (chunk_text text chunk_size overlap max_chunks ! i)) @
              [nl] @ p)
        (chunk_text text chunk_size overlap max_chunks ! Suc i)"
  by (rule chunk_text_overlap)

text \<open>
  C4 at work: the tail \<open>" cd"\<close> of the first chunk comes back as \<open>"cd"\<close> at the
  head of the second.
\<close>

theorem chunk_text_overlap_carried_witness:
  "Suc 0 < length (chunk_text (''ab cd'' @ [nl] @ ''efgh'') 6 3 None) \<and> (0::int) < 3 \<and>
   3 < int (length (chunk_text (''ab cd'' @ [nl] @ ''efgh'') 6 3 None ! 0)) \<and>
   (\<exists>p\<in>set (paragraphs (''ab cd'' @ [nl] @ ''efgh'')).
      prefix (dropWhile isspace
                (py_slice_from (- 3) (chunk_text (''ab cd'' @ [nl] @ ''efgh'') 6 3 None ! 0)) @
              [nl] @ p)
        (chunk_text (''ab cd'' @ [nl] @ ''efgh'') 6 3 None ! Suc 0))"
  using chunk_text_overlap_carried [of 0 "''ab cd'' @ [nl] @ ''efgh''" 6 3 None]
  unfolding chunks_spaced by simp

text \<open>
  C4 as stated fails when the tail begins with whitespace: the last 3 characters of
  the first chunk are \<open>" cd"\<close>, and the second chunk neither begins with them nor
  contains them.
\<close>

theorem chunk_text_overlap_carried_counterexample:
  "Suc 0 < length (chunk_text (''ab cd'' @ [nl] @ ''efgh'') 6 3 None) \<and>
   3 < int (length (chunk_text (''ab cd'' @ [nl] @ ''efgh'') 6 3 None ! 0)) \<and>
   py_slice_from (- 3) (chunk_text (''ab cd'' @ [nl] @ ''efgh'') 6 3 None ! 0) = '' cd'' \<and>
   \<not> prefix '' cd'' (chunk_text (''ab cd'' @ [nl] @ ''efgh'') 6 3 None ! Suc 0) \<and>
   \<not> sublist '' cd'' (chunk_text (''ab cd'' @ [nl] @ ''efgh'') 6 3 None ! Suc 0)"
  unfolding chunks_spaced by (simp add: py_slice_from_def nl_def sublist_Cons_right)

section \<open>Properties of the extractor\<close>

lemma read_pdf_pymupdf_stripped: "read_pdf_pymupdf env p max_pages = Inr t \<Longrightarrow> strip t = t"
  by (auto simp: read_pdf_pymupdf_def Let_def strip_strip split: sum.splits)

lemma primary_text_short:
  "read_pdf_pypdf env p max_pages = Inl e \<or>
   (read_pdf_pypdf env p max_pages = Inr t \<and> length (strip t) < 20) \<Longrightarrow>
   length (strip (primary_text env p max_pages)) < 20"
  by (auto simp: primary_text_def strip_def)

lemma read_pdf_short:
  assumes "length (strip (primary_text env p max_pages)) < 20"
  shows "read_pdf env p max_pages =
           (case read_pdf_pymupdf env p max_pages of
              Inl e \<Rightarrow> primary_text env p max_pages
            | Inr txt2 \<Rightarrow>
                if txt2 \<noteq> [] \<and> length (strip txt2) > length (strip (primary_text env p max_pages))
                then txt2 else primary_text env p max_pages)"
  using assms by (simp add: read_pdf_def Let_def)

text \<open>
  C5: when the primary extractor raises, or returns a text of fewer than 20 characters
  once stripped, \<open>read_pdf\<close> asks the secondary extractor with the same path and
  the same \<open>max_pages\<close>, and returns its text when that is not empty and longer, once
  stripped, than the primary text; a secondary text of 50 characters is always
  returned, since the secondary extractor strips its result; and no failure of either
  extractor leaves \<open>read_pdf\<close>: a failed secondary leaves the primary text, a failed
  primary counts as the empty text.
\<close>

theorem read_pdf_fallback:
  assumes "read_pdf_pypdf env p max_pages = Inl e \<or>
           (read_pdf_pypdf env p max_pages = Inr t \<and> length (strip t) < 20)"
  shows "(read_pdf_pymupdf env p max_pages = Inr txt2 \<and> txt2 \<noteq> [] \<and>
            length (strip (primary_text env p max_pages)) < length (strip txt2) \<longrightarrow>
          read_pdf env p max_pages = txt2) \<and>
         (read_pdf_pymupdf env p max_pages = Inr txt2 \<and> length txt2 = 50 \<longrightarrow>
          read_pdf env p max_pages = txt2) \<and>
         (read_pdf_pymupdf env p max_pages = Inl e' \<longrightarrow>
          read_pdf env p max_pages = primary_text env p max_pages) \<and>
         (read_pdf_pypdf env p max_pages = Inl e \<longrightarrow> primary_text env p max_pages = [])"
proof -
  have short: "length (strip (primary_text env p max_pages)) < 20"
    by (rule primary_text_short [OF assms])
  have fifty: "read_pdf env p max_pages = txt2"
    if "read_pdf_pymupdf env p max_pages = Inr txt2" and "length txt2 = 50"
  proof -
    from that have "length (strip txt2) = 50" and "txt2 \<noteq> []"
      using read_pdf_pymupdf_stripped [of env p max_pages txt2] by auto
    with short that(1) show ?thesis by (simp add: read_pdf_short)
  qed
  show ?thesis
    using short fifty by (auto simp: read_pdf_short primary_text_def)
qed

lemma scanned_texts:
  "read_pdf_pypdf scanned_env (file_path ''scan'' ''.pdf'') (Some 10) = Inr (''Page 1'' @ [nl])"
  "read_pdf_pymupdf scanned_env (file_path ''scan'' ''.pdf'') (Some 10) =
     Inr ''The quick brown fox jumps over the lazy dog again.''"
  "strip (''Page 1'' @ [nl]) = ''Page 1''"
  by code_simp+

text \<open>
  C5 at work: the primary text \<open>"Page 1\\n"\<close> has 6 characters once stripped, the
  secondary text has 50, and \<open>read_pdf\<close> returns the secondary text.
\<close>

theorem read_pdf_fallback_witness:
  "read_pdf_pypdf scanned_env (file_path ''scan'' ''.pdf'') (Some 10) = Inr (''Page 1'' @ [nl]) \<and>
   length (strip (''Page 1'' @ [nl])) < 20 \<and>
   read_pdf_pymupdf scanned_env (file_path ''scan'' ''.pdf'') (Some 10) =
     Inr ''The quick brown fox jumps over the lazy dog again.'' \<and>
   length ''The quick brown fox jumps over the lazy dog again.'' = 50 \<and>
   read_pdf scanned_env (file_path ''scan'' ''.pdf'') (Some 10) =
     ''The quick brown fox jumps over the lazy dog again.''"
  using read_pdf_fallback [where env = scanned_env and p = "file_path ''scan'' ''.pdf''"
      and max_pages = "Some 10" and t = "''Page 1'' @ [nl]"
      and ?txt2.0 = "''The quick brown fox jumps over the lazy dog again.''"]
  unfolding scanned_texts by simp

section \<open>Properties of the embedding client\<close>

lemma embed_retry_ok:
  "embedding_attempt env (embed_calls w) t = Inr v \<Longrightarrow>
   embed_retry env t attempts w = (Inr v, w\<lparr>embed_calls := Suc (embed_calls w)\<rparr>)"
  by (subst embed_retry.simps) simp


lemma embed_retry_again:
  "embedding_attempt env (embed_calls w) t = Inl e \<Longrightarrow> is_request_exception env e \<Longrightarrow>
   Suc attempts < 3 \<Longrightarrow>
   embed_retry env t attempts w =
     embed_retry env t (Suc attempts)
       (w\<lparr>embed_calls := Suc (embed_calls w), slept := slept w @ [2 * Suc attempts]\<rparr>)"
  by (subst embed_retry.simps) simp

lemma embed_retry_exhausted:
  "embedding_attempt env (embed_calls w) t = Inl e \<Longrightarrow> is_request_exception env e \<Longrightarrow>
   3 \<le> Suc attempts \<Longrightarrow>
   embed_retry env t attempts w =
     (Inl (HTTPException 503 (''Embeddings error: '' @ str_exn env e)),
      w\<lparr>embed_calls := Suc (embed_calls w)\<rparr>)"
  by (subst embed_retry.simps) simp

lemma embed_retry_two_failures:
  assumes "embedding_attempt env (embed_calls w) t = Inl e1" and "is_request_exception env e1"
    and "embedding_attempt env (Suc (embed_calls w)) t = Inl e2" and "is_request_exception env e2"
  shows "embed_retry env t 0 w =
           embed_retry env t (Suc (Suc 0))
             (w\<lparr>embed_calls := Suc (Suc (embed_calls w)), slept := slept w @ [2, 4]\<rparr>)"
proof -
  let ?w1 = "w\<lparr>embed_calls := Suc (embed_calls w), slept := slept w @ [2]\<rparr>"
  have "embed_retry env t 0 w = embed_retry env t (Suc 0) ?w1"
    using embed_retry_again [OF assms(1,2), of 0] by simp
  also have "\<dots> = embed_retry env t (Suc (Suc 0))
                     (w\<lparr>embed_calls := Suc (Suc (embed_calls w)), slept := slept w @ [2, 4]\<rparr>)"
    using embed_retry_again [of env ?w1 t e2 "Suc 0"] assms(3,4) by simp
  finally show ?thesis .
qed

text \<open>
  C6: for a text at any place in the list (\<open>out\<close> holds the vectors so far), when
  the first two attempts raise exceptions that the loop catches, the program has slept
  2 and then 4 seconds; a third such failure ends \<open>embed_texts\<close> with the 503 that
  carries the text of the last exception, after exactly three calls and no further
  sleep; a third attempt that succeeds gives the vector and the loop goes on to the
  next text.
\<close>

theorem embed_texts_retry:
  assumes "embedding_attempt env (embed_calls w) t = Inl e1" and "is_request_exception env e1"
    and "embedding_attempt env (embed_calls w + 1) t = Inl e2" and "is_request_exception env e2"
  shows "(embedding_attempt env (embed_calls w + 2) t = Inl e3 \<and> is_request_exception env e3 \<longrightarrow>
            embed_loop env (t # ts) out w =
              (Inl (HTTPException 503 (''Embeddings error: '' @ str_exn env e3)),
               w\<lparr>embed_calls := embed_calls w + 3, slept := slept w @ [2, 4]\<rparr>)) \<and>
         (embedding_attempt env (embed_calls w + 2) t = Inr v \<longrightarrow>
            embed_loop env (t # ts) out w =
              embed_loop env ts (out @ [v])
                (w\<lparr>embed_calls := embed_calls w + 3, slept := slept w @ [2, 4]\<rparr>) \<and>
            embed_texts env [t] w =
              (Inr [v], w\<lparr>embed_calls := embed_calls w + 3, slept := slept w @ [2, 4]\<rparr>))"
proof -
  let ?w2 = "w\<lparr>embed_calls := Suc (Suc (embed_calls w)), slept := slept w @ [2, 4]\<rparr>"
  from assms(3) have second: "embedding_attempt env (Suc (embed_calls w)) t = Inl e2" by simp
  have two: "embed_retry env t 0 w = embed_retry env t (Suc (Suc 0)) ?w2"
    by (rule embed_retry_two_failures [OF assms(1,2) second assms(4)])
  have fail: "embed_retry env t 0 w =
                (Inl (HTTPException 503 (''Embeddings error: '' @ str_exn env e3)),
                 w\<lparr>embed_calls := embed_calls w + 3, slept := slept w @ [2, 4]\<rparr>)"
    if "embedding_attempt env (embed_calls w + 2) t = Inl e3" and "is_request_exception env e3"
    unfolding two using that embed_retry_exhausted [of env ?w2 t e3 "Suc (Suc 0)"] by simp
  have ok: "embed_retry env t 0 w =
              (Inr v, w\<lparr>embed_calls := embed_calls w + 3, slept := slept w @ [2, 4]\<rparr>)"
    if "embedding_attempt env (embed_calls w + 2) t = Inr v"
    unfolding two using that embed_retry_ok [of env ?w2 t v "Suc (Suc 0)"] by simp
  show ?thesis
    using fail ok by (simp add: embed_texts_def)
qed

lemma flaky_attempts:
  "embedding_attempt flaky_env k t =
     (if k < 2 then Inl (RequestException ''timed out'') else Inr (JArr [JNum 1, JNum 0]))"
  "embedding_attempt down_env k t = Inl (RequestException ''timed out'')"
  "str_exn down_env (RequestException ''timed out'') = ''timed out''"
  by (simp_all add: embedding_attempt_def checked_json_def flaky_env_def down_env_def
      example_env_def ok_embedding_def)

lemma world0_fields:
  "embed_calls world0 = 0" "chat_calls world0 = 0" "slept world0 = []" "chat_prompts world0 = []"
  "rows world0 = []" "flush_calls world0 = 0"
  by (simp_all add: world0_def)

text \<open>
  C6 at work: a backend that times out twice and then answers gives the vector after
  sleeps of 2 and 4 seconds; a backend that always times out gives the 503 after three
  calls.
\<close>

theorem embed_texts_retry_witness:
  "embedding_attempt flaky_env 0 ''q'' = Inl (RequestException ''timed out'') \<and>
   embedding_attempt flaky_env 1 ''q'' = Inl (RequestException ''timed out'') \<and>
   is_request_exception flaky_env (RequestException ''timed out'') \<and>
   embedding_attempt flaky_env 2 ''q'' = Inr (JArr [JNum 1, JNum 0]) \<and>
   embed_texts flaky_env [''q''] world0 =
     (Inr [JArr [JNum 1, JNum 0]], world0\<lparr>embed_calls := 3, slept := [2, 4]\<rparr>) \<and>
   embedding_attempt down_env 2 ''q'' = Inl (RequestException ''timed out'') \<and>
   embed_texts down_env [''q'', ''r''] world0 =
     (Inl (HTTPException 503 ''Embeddings error: timed out''),
      world0\<lparr>embed_calls := 3, slept := [2, 4]\<rparr>)"
proof -
  let ?e = "RequestException ''timed out''"
  have r: "is_request_exception env ?e" for env by simp
  have f0: "embedding_attempt flaky_env (embed_calls world0) ''q'' = Inl ?e"
    and f1: "embedding_attempt flaky_env (embed_calls world0 + 1) ''q'' = Inl ?e"
    and f2: "embedding_attempt flaky_env (embed_calls world0 + 2) ''q'' = Inr (JArr [JNum 1, JNum 0])"
    by (simp_all add: flaky_attempts world0_fields)
  have d: "embedding_attempt down_env k ''q'' = Inl ?e" for k
    by (simp add: flaky_attempts)
  have "embed_texts flaky_env [''q''] world0 =
          (Inr [JArr [JNum 1, JNum 0]],
           world0\<lparr>embed_calls := embed_calls world0 + 3, slept := slept world0 @ [2, 4]\<rparr>)"
    using embed_texts_retry [OF f0 r f1 r] f2 by blast
  moreover have "embed_loop down_env (''q'' # [''r'']) [] world0 =
          (Inl (HTTPException 503 (''Embeddings error: '' @ str_exn down_env ?e)),
           world0\<lparr>embed_calls := embed_calls world0 + 3, slept := slept world0 @ [2, 4]\<rparr>)"
    using embed_texts_retry [OF d r d r] d r by blast
  ultimately show ?thesis
    using f0 f1 f2 d by (simp add: world0_fields flaky_attempts embed_texts_def)
qed





section \<open>Properties of chat\<close>




















section \<open>Properties of ingestion\<close>















text \<open>
  C10: when the file exists, its document loads, and the text gives no chunk,
  \<open>ingest_one\<close> returns a report with \<open>inserted = 0\<close> and the name marked
  \<open>(sin texto)\<close>, and the world is as before: nothing was embedded, inserted or
  flushed.
\<close>

theorem ingest_one_no_text:
  "path_exists env (docs_join env fname) \<Longrightarrow>
   load_document env (docs_join env fname)
     (if lower (path_suffix (docs_join env fname)) = ''.pdf'' then max_pages else None) = Inr raw \<Longrightarrow>
   chunk_text raw 1200 200 max_chunks = [] \<Longrightarrow>
   ingest_one env fname max_pages max_chunks w =
     (Inr \<lparr>inserted = 0, files = [path_name (docs_join env fname) @ '' (sin texto)'']\<rparr>, w)"
  by (simp add: ingest_one_def Let_def)

lemma blank_file:
  "path_exists blank_env (docs_join blank_env ''notes.txt'')"
  "docs_join blank_env ''notes.txt'' = file_path ''notes'' ''.txt''"
  "load_document blank_env (file_path ''notes'' ''.txt'') None = Inr (''  '' @ [nl] @ '' '')"
  "lower (path_suffix (file_path ''notes'' ''.txt'')) = ''.txt''"
  "path_name (file_path ''notes'' ''.txt'') = ''notes.txt''"
  "chunk_text (''  '' @ [nl] @ '' '') 1200 200 (Some 100) = []"
  by code_simp+

text \<open>C10 at work: a text file of whitespace only.\<close>

theorem ingest_one_no_text_witness:
  "path_exists blank_env (docs_join blank_env ''notes.txt'') \<and>
   load_document blank_env (docs_join blank_env ''notes.txt'') None = Inr (''  '' @ [nl] @ '' '') \<and>
   chunk_text (''  '' @ [nl] @ '' '') 1200 200 (Some 100) = [] \<and>
   ingest_one blank_env ''notes.txt'' (Some 10) (Some 100) world0 =
     (Inr \<lparr>inserted = 0, files = [''notes.txt (sin texto)'']\<rparr>, world0)"
  using ingest_one_no_text [of blank_env "''notes.txt''" "Some 10" "''  '' @ [nl] @ '' ''"
      "Some 100" world0] blank_file
  by simp

end
